theory Spec2Isabelle
  imports Main "HOL-Library.Word"
begin

section \<open>The rolling comment engine (hooks/useRollingComments.ts)\<close>

text \<open>
  The hook \<open>useRollingComments\<close> keeps two pieces of React state, \<open>comments\<close> and
  \<open>currentIndex\<close>, arms a self-rescheduling timer in an effect, and exports
  \<open>addZapComment\<close>. Its state is passed explicitly here; what the runtime supplies to a
  call (the readings of \<open>Date.now()\<close>, the draws of \<open>Math.random()\<close>) is an argument of
  the call.
\<close>

subsection \<open>Strings and numbers of the runtime\<close>

text \<open>
  A JavaScript string is a sequence of UTF-16 code units. The literals of the source are
  written as their ASCII runs, with the code units of every other character spelled out
  (U+26A1, the high-voltage sign, is the single unit \<open>0x26A1\<close>; a character outside the
  basic plane is a surrogate pair).
\<close>

type_synonym jsstring = "16 word list"

definition ascii :: "string \<Rightarrow> jsstring" where
  "ascii s = map (\<lambda>c. of_nat (of_char c)) s"

text \<open>
  \<open>Date.now()\<close> is an integral number of milliseconds. A template literal renders it
  with ToString, which for an integer of this size is its decimal numeral, with a minus
  sign when it is negative.
\<close>

fun digits10 :: "nat \<Rightarrow> string" where
  "digits10 n =
     (if n < 10 then [char_of (48 + n)]
      else digits10 (n div 10) @ [char_of (48 + n mod 10)])"

definition number_text :: "int \<Rightarrow> jsstring" where
  "number_text i =
     (if i < 0 then ascii (CHR ''-'' # digits10 (nat (- i))) else ascii (digits10 (nat i)))"

text \<open>
  \<open>Math.random()\<close> returns a double \<open>d\<close> with \<open>0 \<le> d < 1\<close>. Every such double is
  \<open>k * 2^-1074\<close> for a natural number \<open>k < 2^1074\<close> that has at most 53 significant bits
  (the unit \<open>2^-1074\<close> is the spacing of the subnormal numbers, so the exponent range adds
  no further condition). A draw is carried as this \<open>k\<close>. \<open>round53\<close> is rounding to
  nearest, ties to even, of a value given in the same unit; \<open>bits\<close> is the bit length.
\<close>

fun bits :: "nat \<Rightarrow> nat" where
  "bits n = (if n = 0 then 0 else Suc (bits (n div 2)))"

definition round53 :: "nat \<Rightarrow> nat" where
  "round53 n =
     (if bits n \<le> 53 then n
      else
        let s = bits n - 53;
            q = n div 2 ^ s;
            r = n mod 2 ^ s;
            h = 2 ^ (s - 1)
        in (if r < h \<or> (r = h \<and> even q) then q else q + 1) * 2 ^ s)"

definition unit_one :: nat where
  "unit_one = 2 ^ 1074"

definition is_random_double :: "nat \<Rightarrow> bool" where
  "is_random_double k \<longleftrightarrow> k < unit_one \<and> round53 k = k"

text \<open>
  \<open>Math.floor(Math.random() * n)\<close> for an array length \<open>n\<close>: the product is the exact
  product rounded to a double, and the floor of \<open>m * 2^-1074\<close> is \<open>m div 2^1074\<close>.
\<close>

definition floor_random_times :: "nat \<Rightarrow> nat \<Rightarrow> nat" where
  "floor_random_times k n = round53 (k * n) div unit_one"

text \<open>
  Reading an array at an index: JavaScript yields \<open>undefined\<close> out of range, which is
  \<open>None\<close> here.
\<close>

definition js_index :: "'a list \<Rightarrow> nat \<Rightarrow> 'a option" where
  "js_index xs i = (if i < length xs then Some (xs ! i) else None)"

text \<open>
  \<open>xs.slice(start)\<close> for an integer \<open>start\<close>: a negative start counts from the end, and
  the start is clamped to the array.
\<close>

definition slice_from :: "int \<Rightarrow> 'a list \<Rightarrow> 'a list" where
  "slice_from start xs =
     (let len = int (length xs);
          k = (if start < 0 then max (len + start) 0 else min start len)
      in drop (nat k) xs)"

subsection \<open>The data of the hook\<close>

text \<open>
  The interface \<open>Comment\<close> of types/index.ts. The fields \<open>id\<close> and \<open>text\<close> carry a suffix
  because the bare names are taken. \<open>author\<close> and \<open>text\<close> are read from arrays by index
  in \<open>injectComment\<close>, so they can hold \<open>undefined\<close> at run time: they are options.
\<close>

record comment =
  id_c :: jsstring
  author :: "jsstring option"
  text_c :: "jsstring option"
  timestamp :: int
  isZap :: bool

definition COMMENT_TEMPLATES :: "jsstring list" where
  "COMMENT_TEMPLATES =
    [ ascii ''Bullish on BTC! '' @ [0xD83D, 0xDE80],
      ascii ''LFG '' @ [0x26A1],
      ascii ''Smooth stream quality '' @ [0xD83D, 0xDC4C],
      ascii ''Stack sats, not regrets'',
      ascii ''GM '' @ [0x2600, 0xFE0F],
      ascii ''This is the way'',
      ascii ''21 million club '' @ [0x20BF],
      ascii ''HODL strong '' @ [0xD83D, 0xDC8E, 0xD83D, 0xDE4C],
      ascii ''Lightning is the future'',
      ascii ''Zap it! '' @ [0x26A1, 0x26A1, 0x26A1],
      ascii ''When Lambo? '' @ [0xD83C, 0xDFCE, 0xFE0F],
      ascii ''Sound money only'',
      ascii ''Fiat is a scam'',
      ascii ''Not your keys, not your coins '' @ [0xD83D, 0xDD11],
      ascii ''Second layer scaling FTW'',
      ascii ''Thanks for the alpha '' @ [0xD83E, 0xDDE0],
      ascii ''Sat stacking intensifies'',
      ascii ''Orange coin good '' @ [0xD83C, 0xDF4A],
      ascii ''Layer 2 go brrr'',
      ascii ''Proof of work >>> Proof of stake'' ]"

definition AUTHORS :: "jsstring list" where
  "AUTHORS =
    [ ascii ''SatoshisFan21'',
      ascii ''LightningNode42'',
      ascii ''BitcoinMaxi'',
      ascii ''StackingSats'',
      ascii ''HodlGang'',
      ascii ''BTCWhale'',
      ascii ''ZapMaster'',
      ascii ''CryptoNinja'',
      ascii ''MoonBoi'',
      ascii ''DiamondHands'' ]"

definition MAX_COMMENTS :: nat where
  "MAX_COMMENTS = 20"

definition DEFAULT_ZAP_TEXT :: jsstring where
  "DEFAULT_ZAP_TEXT = [0x26A1] @ ascii '' New tip received! '' @ [0x26A1]"

text \<open>
  The state React keeps for one hook instance: the two \<open>useState\<close> cells (the cursor
  starts at 0 and only ever grows by 1, so it is a natural number).
\<close>

record hook =
  comments :: "comment list"
  currentIndex :: nat

definition initial :: hook where
  "initial = \<lparr> comments = [], currentIndex = 0 \<rparr>"

text \<open>
  What the runtime supplies to one call of \<open>injectComment\<close>, in evaluation order: the
  draw for \<open>authorIndex\<close>, the clock reading and the draw inside the \<open>id\<close> template, and
  the clock reading of \<open>timestamp\<close>. The second draw is only ever rendered into the
  \<open>id\<close>, so it is carried as the text that ToString gives it.
\<close>

record inject_env =
  rnd_author :: nat
  now_id :: int
  rnd_id :: jsstring
  now_ts :: int

text \<open>The two clock readings of one call of \<open>addZapComment\<close>.\<close>

record zap_env =
  zap_now_id :: int
  zap_now_ts :: int

subsection \<open>injectComment\<close>

text \<open>
  The object literal \<open>newComment\<close>. The argument \<open>k\<close> is the value of \<open>currentIndex\<close>
  that the effect's closure captured.
\<close>

definition newComment :: "nat \<Rightarrow> inject_env \<Rightarrow> comment" where
  "newComment k env =
     (let templateIndex = k mod length COMMENT_TEMPLATES;
          authorIndex = floor_random_times (rnd_author env) (length AUTHORS)
      in \<lparr> id_c = ascii ''comment-'' @ number_text (now_id env) @ ascii ''-'' @ rnd_id env,
           author = js_index AUTHORS authorIndex,
           text_c = js_index COMMENT_TEMPLATES templateIndex,
           timestamp = now_ts env,
           isZap = False \<rparr>)"

text \<open>
  \<open>injectComment\<close> queues two functional state updates, which React applies to the
  latest state: append and keep the last \<open>MAX_COMMENTS\<close>, and increment the cursor. The
  arrow function has no \<open>return\<close>, so the call evaluates to \<open>undefined\<close>: the first
  component of the result is \<open>None\<close>. The closing \<open>console.log\<close> changes no state and
  is left out.
\<close>

definition injectComment :: "nat \<Rightarrow> inject_env \<Rightarrow> hook \<Rightarrow> comment option \<times> hook" where
  "injectComment k env s =
     (let updated = comments s @ [newComment k env]
      in (None, s\<lparr> comments := slice_from (- int MAX_COMMENTS) updated,
                   currentIndex := currentIndex s + 1 \<rparr>))"

subsection \<open>addZapComment\<close>

text \<open>
  \<open>customMessage || default\<close>: the default is taken when the argument is omitted
  (\<open>None\<close>) and also when it is the empty string, the one falsy string.
\<close>

definition zapComment :: "jsstring option \<Rightarrow> zap_env \<Rightarrow> comment" where
  "zapComment customMessage env =
     \<lparr> id_c = ascii ''zap-'' @ number_text (zap_now_id env),
       author = Some (ascii ''System''),
       text_c = Some (case customMessage of
                        None \<Rightarrow> DEFAULT_ZAP_TEXT
                      | Some m \<Rightarrow> if m = [] then DEFAULT_ZAP_TEXT else m),
       timestamp = zap_now_ts env,
       isZap = True \<rparr>"

definition addZapComment :: "jsstring option \<Rightarrow> zap_env \<Rightarrow> hook \<Rightarrow> comment option \<times> hook" where
  "addZapComment customMessage env s =
     (let updated = comments s @ [zapComment customMessage env]
      in (None, s\<lparr> comments := slice_from (- int MAX_COMMENTS) updated \<rparr>))"

subsection \<open>Sequences of appends\<close>

datatype append_op =
    Inject nat inject_env
  | Zap "jsstring option" zap_env

fun apply_op :: "append_op \<Rightarrow> hook \<Rightarrow> hook" where
  "apply_op (Inject k env) s = snd (injectComment k env s)"
| "apply_op (Zap m env) s = snd (addZapComment m env s)"

fun created :: "append_op \<Rightarrow> comment" where
  "created (Inject k env) = newComment k env"
| "created (Zap m env) = zapComment m env"

fun run :: "append_op list \<Rightarrow> hook \<Rightarrow> hook" where
  "run [] s = s"
| "run (x # xs) s = run xs (apply_op x s)"

text \<open>
  The clock reading that becomes the \<open>timestamp\<close> of the message an append creates.
\<close>

fun clock_of :: "append_op \<Rightarrow> int" where
  "clock_of (Inject k env) = now_ts env"
| "clock_of (Zap m env) = zap_now_ts env"

subsection \<open>The effect: scheduleNext, the timer callback, the cleanup\<close>

text \<open>
  Every run of the effect body declares its own \<open>let timeoutId\<close> and builds closures over
  the \<open>currentIndex\<close> of the render it belongs to. A run is named by the number of its
  variable (\<open>cell\<close>) and carries the captured cursor.
\<close>

record effect_run =
  cell :: nat
  cursor :: nat

text \<open>
  The component as the runtime sees it: the state React holds for the hook, whether
  the component is still mounted, the effect run whose cleanup React holds (\<open>None\<close>
  before the first run), the \<open>timeoutId\<close> variable of every run (\<open>None\<close> while it is
  \<open>undefined\<close>), the timers pending in the runtime, each with the run its callback
  closes over, and the counters for the next timer identifier and the next run.
\<close>

record session =
  react_state :: hook
  mounted :: bool
  live :: "effect_run option"
  timeoutId :: "nat \<Rightarrow> nat option"
  timers :: "(nat \<times> effect_run) list"
  nextTimer :: nat
  nextRun :: nat

text \<open>
  A state update (\<open>setComments\<close>, \<open>setCurrentIndex\<close>) is applied by React to the latest
  state of a mounted component; React drops an update to a component that has been
  unmounted.
\<close>

definition set_state :: "(hook \<Rightarrow> hook) \<Rightarrow> session \<Rightarrow> session" where
  "set_state f s = (if mounted s then s\<lparr> react_state := f (react_state s) \<rparr> else s)"

text \<open>
  \<open>scheduleNext\<close> of run \<open>r\<close> calls \<open>setTimeout\<close>, which registers a timer with the
  runtime and returns its identifier, and stores the identifier in the \<open>timeoutId\<close> of
  that run. The delay is not modelled: a pending timer may fire at any later step.
\<close>

definition scheduleNext :: "effect_run \<Rightarrow> session \<Rightarrow> session" where
  "scheduleNext r s =
     s\<lparr> timeoutId := (timeoutId s)(cell r := Some (nextTimer s)),
        timers := timers s @ [(nextTimer s, r)],
        nextTimer := nextTimer s + 1 \<rparr>"

text \<open>
  The arrow function that run \<open>r\<close> hands to \<open>setTimeout\<close>:
  \<open>injectComment(); scheduleNext();\<close>. It tests nothing itself; the two state updates of
  \<open>injectComment\<close> go through React.
\<close>

definition timer_callback :: "effect_run \<Rightarrow> inject_env \<Rightarrow> session \<Rightarrow> session" where
  "timer_callback r env s =
     scheduleNext r (set_state (\<lambda>h. snd (injectComment (cursor r) env h)) s)"

text \<open>
  \<open>clearTimeout\<close> removes the timer with the given identifier from the pending ones; it
  does nothing for an identifier that is not pending, or for \<open>undefined\<close>.
\<close>

definition clearTimeout :: "nat option \<Rightarrow> session \<Rightarrow> session" where
  "clearTimeout tid s =
     (case tid of
        None \<Rightarrow> s
      | Some t \<Rightarrow> s\<lparr> timers := filter (\<lambda>p. fst p \<noteq> t) (timers s) \<rparr>)"

text \<open>
  The function run \<open>r\<close> returns: \<open>() => clearTimeout(timeoutId)\<close>, reading the variable
  of that run when it is called. React calls the cleanup of the live run before the
  effect runs again and at unmount.
\<close>

definition cleanup :: "effect_run \<Rightarrow> session \<Rightarrow> session" where
  "cleanup r s = clearTimeout (timeoutId s (cell r)) s"

definition cleanup_live :: "session \<Rightarrow> session" where
  "cleanup_live s = (case live s of None \<Rightarrow> s | Some r \<Rightarrow> cleanup r s)"

text \<open>
  The effect body: a new run, with a fresh \<open>timeoutId\<close> and the current cursor in its
  closures, calls \<open>scheduleNext()\<close> once.
\<close>

definition run_effect :: "session \<Rightarrow> session" where
  "run_effect s =
     (let r = \<lparr> cell = nextRun s, cursor = currentIndex (react_state s) \<rparr>
      in scheduleNext r (s\<lparr> live := Some r, nextRun := nextRun s + 1 \<rparr>))"

text \<open>Activation: the component is mounted with the initial state and the effect runs.\<close>

definition mount :: session where
  "mount =
     run_effect \<lparr> react_state = initial, mounted = True, live = None,
                  timeoutId = (\<lambda>c. None), timers = [], nextTimer = 1, nextRun = 0 \<rparr>"

text \<open>
  After a callback, React renders a mounted component again; the dependency list is
  \<open>[currentIndex]\<close>, so when the cursor differs from its value \<open>old\<close> before the callback
  React runs the cleanup of the live run and then the effect body.
\<close>

definition commit :: "nat \<Rightarrow> session \<Rightarrow> session" where
  "commit old s =
     (if mounted s \<and> currentIndex (react_state s) \<noteq> old
      then run_effect (cleanup_live s)
      else s)"

text \<open>
  Cancellation: the component is torn down. React runs the cleanup of the live run and
  discards the component.
\<close>

definition unmount :: "session \<Rightarrow> session" where
  "unmount s = (cleanup_live s)\<lparr> mounted := False \<rparr>"

text \<open>
  What can happen to the component: the runtime fires a pending timer (it is no longer
  pending once it fires, and its callback runs); someone who captured the callback of a
  run invokes it directly; the application calls \<open>addZapComment\<close>, which changes
  \<open>comments\<close> only and so leaves the effect alone.
\<close>

datatype event =
    TimerFires nat inject_env
  | CallbackInvoked effect_run inject_env
  | ZapAdded "jsstring option" zap_env

fun step :: "event \<Rightarrow> session \<Rightarrow> session" where
  "step (TimerFires t env) s =
     (case map_of (timers s) t of
        None \<Rightarrow> s
      | Some r \<Rightarrow>
          commit (currentIndex (react_state s))
            (timer_callback r env (s\<lparr> timers := filter (\<lambda>p. fst p \<noteq> t) (timers s) \<rparr>)))"
| "step (CallbackInvoked r env) s =
     commit (currentIndex (react_state s)) (timer_callback r env s)"
| "step (ZapAdded m env) s = set_state (\<lambda>h. snd (addZapComment m env h)) s"

fun steps :: "event list \<Rightarrow> session \<Rightarrow> session" where
  "steps [] s = s"
| "steps (e # es) s = steps es (step e s)"

text \<open>The events of an ordinary session: nobody invokes a captured callback.\<close>

fun ordinary :: "event \<Rightarrow> bool" where
  "ordinary (TimerFires t env) = True"
| "ordinary (CallbackInvoked r env) = False"
| "ordinary (ZapAdded m env) = True"

text \<open>
  Every pending timer belongs to the live run and is the one its \<open>timeoutId\<close> names.
\<close>

definition armed_only :: "session \<Rightarrow> bool" where
  "armed_only s \<longleftrightarrow>
     (\<forall>p \<in> set (timers s). live s = Some (snd p) \<and> timeoutId s (cell (snd p)) = Some (fst p))"

subsection \<open>Concrete inputs\<close>

text \<open>
  A call of \<open>addZapComment\<close> at the clock reading 1700000000000, and a call of
  \<open>injectComment\<close> at the same reading whose first draw is 0.5 (\<open>2^1073\<close> units of
  \<open>2^-1074\<close>) and whose second draw is rendered as \<open>0.8125\<close>.
\<close>

definition zap0 :: zap_env where
  "zap0 = \<lparr> zap_now_id = 1700000000000, zap_now_ts = 1700000000000 \<rparr>"

definition inject0 :: inject_env where
  "inject0 = \<lparr> rnd_author = 2 ^ 1073, now_id = 1700000000000,
                rnd_id = ascii ''0.8125'', now_ts = 1700000000000 \<rparr>"

declare digits10.simps [simp del]

declare bits.simps [simp del]

section \<open>The bounded buffer\<close>

lemma slice_from_neg:
  "0 < n \<Longrightarrow> slice_from (- int n) xs = drop (length xs - n) xs"
proof -
  have "nat (int (length xs) - int n) = length xs - n"
    by simp
  moreover assume "0 < n"
  ultimately show ?thesis
    by (simp add: slice_from_def Let_def max_def)
qed

lemma slice_from_MAX:
  "slice_from (- int MAX_COMMENTS) xs = drop (length xs - MAX_COMMENTS) xs"
  by (rule slice_from_neg) (simp add: MAX_COMMENTS_def)

lemma comments_apply_op:
  "comments (apply_op x s)
     = drop (Suc (length (comments s)) - MAX_COMMENTS) (comments s @ [created x])"
  by (cases x) (simp_all add: injectComment_def addZapComment_def slice_from_MAX Let_def)

lemma length_apply_op:
  "length (comments (apply_op x s)) = min (Suc (length (comments s))) MAX_COMMENTS"
  by (simp add: comments_apply_op)

lemma comments_initial: "comments initial = []"
  by (simp add: initial_def)

lemma length_run:
  "length (comments s) \<le> MAX_COMMENTS \<Longrightarrow>
   length (comments (run xs s)) = min (length (comments s) + length xs) MAX_COMMENTS"
proof (induction xs arbitrary: s)
  case Nil
  then show ?case by simp
next
  case (Cons x xs)
  have "length (comments (apply_op x s)) \<le> MAX_COMMENTS"
    by (simp add: length_apply_op)
  from Cons.IH [OF this] show ?case
    by (simp add: length_apply_op min_def)
qed

text \<open>
  C1. After any sequence of N appends (injectComment and addZapComment in any mix, with
  any arguments) on the initially empty buffer, the comments list has exactly
  min(N, 20) entries.
\<close>

theorem c1_length_after_appends:
  "length (comments (run ops initial)) = min (length ops) 20"
proof -
  have "length (comments initial) \<le> MAX_COMMENTS"
    by (simp add: comments_initial)
  from length_run [OF this, of ops] show ?thesis
    by (simp add: comments_initial MAX_COMMENTS_def)
qed

text \<open>
  Keeping the last \<open>n\<close> after every append is keeping the last \<open>n\<close> once at the end.
\<close>

lemma drop_tail_append:
  "drop (length (drop (length xs - n) xs @ zs) - n) (drop (length xs - n) xs @ zs)
     = drop (length (xs @ zs) - n) (xs @ zs)"
proof (cases "length xs \<le> n")
  case True
  then show ?thesis by simp
next
  case False
  then have "length (drop (length xs - n) xs @ zs) - n = length zs"
    by simp
  moreover have "length (xs @ zs) - n = length zs + (length xs - n)"
    using False by simp
  moreover have "drop (length zs + (length xs - n)) (xs @ zs)
      = drop (length zs) (drop (length xs - n) (xs @ zs))"
    by (simp add: add.commute)
  ultimately show ?thesis by simp
qed

lemma comments_run:
  "length (comments s) \<le> MAX_COMMENTS \<Longrightarrow>
   comments (run ops s)
     = drop (length (comments s @ map created ops) - MAX_COMMENTS)
         (comments s @ map created ops)"
proof (induction ops arbitrary: s)
  case Nil
  then show ?case by simp
next
  case (Cons x xs)
  let ?A = "comments s @ [created x]"
  have step: "comments (apply_op x s) = drop (length ?A - MAX_COMMENTS) ?A"
    by (simp add: comments_apply_op)
  have "length (comments (apply_op x s)) \<le> MAX_COMMENTS"
    by (simp add: length_apply_op)
  from Cons.IH [OF this]
  have "comments (run (x # xs) s)
      = drop (length (drop (length ?A - MAX_COMMENTS) ?A @ map created xs) - MAX_COMMENTS)
          (drop (length ?A - MAX_COMMENTS) ?A @ map created xs)"
    by (simp only: run.simps step)
  also have "\<dots> = drop (length (?A @ map created xs) - MAX_COMMENTS) (?A @ map created xs)"
    by (rule drop_tail_append)
  finally show ?case by simp
qed

lemma comments_run_initial:
  "comments (run ops initial) = drop (length ops - MAX_COMMENTS) (map created ops)"
  using comments_run [of initial ops] by (simp add: comments_initial)

text \<open>
  C2. Eviction is first-in first-out and blind to the flag: after more than 20 appends
  on the empty buffer, the contents are exactly the 20 messages appended last, in the
  order they were appended, whatever kind each append was.
\<close>

theorem c2_fifo_eviction:
  "20 < length ops \<Longrightarrow>
   comments (run ops initial) = drop (length ops - 20) (map created ops) \<and>
   length (comments (run ops initial)) = 20"
  by (simp add: comments_run_initial MAX_COMMENTS_def)

text \<open>
  One zap comment followed by twenty synthetic ones: the zap comment is the one evicted.
\<close>

theorem c2_fifo_eviction_witness:
  "(20::nat) < length (Zap None zap0 # map (\<lambda>k. Inject k inject0) [0..<20]) \<and>
   comments (run (Zap None zap0 # map (\<lambda>k. Inject k inject0) [0..<20]) initial)
     = map (\<lambda>k. newComment k inject0) [0..<20]"
  using c2_fifo_eviction [of "Zap None zap0 # map (\<lambda>k. Inject k inject0) [0..<20]"]
  by (simp add: comp_def)

lemma timestamp_created: "timestamp (created x) = clock_of x"
  by (cases x) (simp_all add: newComment_def zapComment_def Let_def)

text \<open>
  C7. When each append reads a clock value no smaller than the one the append before it
  read, the buffer after any sequence of appends is sorted by \<open>timestamp\<close>, oldest
  first, non-decreasing.
\<close>

theorem c7_sorted_by_timestamp:
  "sorted (map clock_of ops) \<Longrightarrow> sorted (map timestamp (comments (run ops initial)))"
proof -
  assume "sorted (map clock_of ops)"
  then have "sorted (drop (length ops - MAX_COMMENTS) (map clock_of ops))"
    by (rule sorted_wrt_drop)
  then show ?thesis
    by (simp add: comments_run_initial drop_map timestamp_created comp_def)
qed

theorem c7_sorted_by_timestamp_witness:
  "sorted (map clock_of [Inject 0 inject0, Zap None zap0]) \<and>
   sorted (map timestamp (comments (run [Inject 0 inject0, Zap None zap0] initial)))"
  using c7_sorted_by_timestamp [of "[Inject 0 inject0, Zap None zap0]"]
  by (simp add: inject0_def zap0_def)

text \<open>
  C10. An append leaves the surviving messages as they were: the new contents are a
  suffix of the old contents (the old contents without the evicted front, at most one
  message of a full buffer) followed by the one new message.
\<close>

theorem c10_append_keeps_survivors:
  "comments (snd (injectComment k env s))
     = drop (Suc (length (comments s)) - 20) (comments s) @ [newComment k env] \<and>
   comments (snd (addZapComment m zenv s))
     = drop (Suc (length (comments s)) - 20) (comments s) @ [zapComment m zenv]"
  using comments_apply_op [of "Inject k env" s] comments_apply_op [of "Zap m zenv" s]
  by (simp add: MAX_COMMENTS_def)

section \<open>The message an append creates\<close>

lemma last_comments_apply_op: "last (comments (apply_op x s)) = created x"
proof -
  have "Suc (length (comments s)) - MAX_COMMENTS \<le> length (comments s)"
    by (simp add: MAX_COMMENTS_def)
  then show ?thesis
    by (simp add: comments_apply_op)
qed

lemma last_comments_inject:
  "last (comments (snd (injectComment k env s))) = newComment k env"
  using last_comments_apply_op [of "Inject k env" s] by simp

lemma last_comments_zap:
  "last (comments (snd (addZapComment m env s))) = zapComment m env"
  using last_comments_apply_op [of "Zap m env" s] by simp

lemma comments_apply_op_nonempty: "comments (apply_op x s) \<noteq> []"
proof -
  have "length (comments (apply_op x s)) \<noteq> 0"
    by (simp add: length_apply_op MAX_COMMENTS_def)
  then show ?thesis by simp
qed

lemma DEFAULT_ZAP_TEXT_nonempty: "DEFAULT_ZAP_TEXT \<noteq> []"
  by (simp add: DEFAULT_ZAP_TEXT_def)

text \<open>
  The claim C3 as it is written fails for the empty string: it is a provided argument,
  and the text of the message is the default, not the empty string.
\<close>

theorem c3_zap_text_counterexample:
  "text_c (last (comments (snd (addZapComment (Some []) zap0 initial)))) \<noteq> Some []"
  by (simp add: last_comments_zap zapComment_def DEFAULT_ZAP_TEXT_nonempty)

text \<open>
  C3 (amended). addZapComment called with no argument, or with the empty string,
  appends a message whose text is the fixed default acknowledgement; called with any
  non-empty string it appends a message whose text is exactly that string.
\<close>

theorem c3_zap_text:
  "text_c (last (comments (snd (addZapComment None env s)))) = Some DEFAULT_ZAP_TEXT \<and>
   text_c (last (comments (snd (addZapComment (Some []) env s)))) = Some DEFAULT_ZAP_TEXT \<and>
   (m \<noteq> [] \<longrightarrow> text_c (last (comments (snd (addZapComment (Some m) env s)))) = Some m)"
  by (simp add: last_comments_zap zapComment_def)

theorem c3_zap_text_witness:
  "ascii ''Tip received!'' \<noteq> [] \<and>
   text_c (last (comments (snd (addZapComment (Some (ascii ''Tip received!'')) zap0 initial))))
     = Some (ascii ''Tip received!'')"
  using c3_zap_text [of zap0 initial "ascii ''Tip received!''"]
  by (simp add: ascii_def)

lemma length_COMMENT_TEMPLATES: "length COMMENT_TEMPLATES = 20"
  by (simp add: COMMENT_TEMPLATES_def)

lemma length_AUTHORS: "length AUTHORS = 10"
  by (simp add: AUTHORS_def)

lemma text_newComment:
  "text_c (newComment k env) = Some (COMMENT_TEMPLATES ! (k mod 20))"
  by (simp add: newComment_def Let_def js_index_def length_COMMENT_TEMPLATES)

text \<open>
  C6. The template is chosen by the cursor modulo the number of templates: the cursor
  values k and k + 20 give the same text, and one cursor value gives the same text
  whatever the draws, the clock and the state of the buffer are.
\<close>

theorem c6_template_wraps:
  "text_c (last (comments (snd (injectComment k env1 s1))))
     = text_c (last (comments (snd (injectComment (k + length COMMENT_TEMPLATES) env2 s2)))) \<and>
   text_c (last (comments (snd (injectComment k env1 s1))))
     = text_c (last (comments (snd (injectComment k env2 s2)))) \<and>
   text_c (last (comments (snd (injectComment k env1 s1))))
     = Some (COMMENT_TEMPLATES ! (k mod length COMMENT_TEMPLATES))"
  by (simp add: last_comments_inject text_newComment length_COMMENT_TEMPLATES)

text \<open>
  The claim C8 as it is written fails in its second half: a call returns \<open>undefined\<close>,
  not the message it appended.
\<close>

theorem c8_returns_created_counterexample:
  "fst (addZapComment None zap0 initial)
     \<noteq> Some (last (comments (snd (addZapComment None zap0 initial))))"
  by (simp add: addZapComment_def Let_def)

text \<open>
  C8 (amended). Both append operations are total: for every state of the hook and every
  argument the call succeeds and leaves a non-empty buffer whose last entry is the
  message it created. Neither returns that message: the value of the call is
  \<open>undefined\<close>.
\<close>

theorem c8_appends_total:
  "fst (injectComment k env s) = None \<and>
   comments (snd (injectComment k env s)) \<noteq> [] \<and>
   last (comments (snd (injectComment k env s))) = newComment k env \<and>
   fst (addZapComment m zenv s) = None \<and>
   comments (snd (addZapComment m zenv s)) \<noteq> [] \<and>
   last (comments (snd (addZapComment m zenv s))) = zapComment m zenv"
proof -
  have "fst (injectComment k env s) = None" and "fst (addZapComment m zenv s) = None"
    by (simp_all add: injectComment_def addZapComment_def Let_def)
  moreover have "comments (snd (injectComment k env s)) \<noteq> []"
    using comments_apply_op_nonempty [of "Inject k env" s] by simp
  moreover have "comments (snd (addZapComment m zenv s)) \<noteq> []"
    using comments_apply_op_nonempty [of "Zap m zenv" s] by simp
  ultimately show ?thesis
    by (simp add: last_comments_inject last_comments_zap)
qed

text \<open>
  C4 (the code at the failing input). Two calls of addZapComment that read the same
  millisecond from the clock give both messages the id \<open>zap-1700000000000\<close>: the ids in
  the buffer are not distinct.
\<close>

theorem c4_zap_ids_collide:
  "map id_c (comments (run [Zap None zap0, Zap (Some (ascii ''thanks'')) zap0] initial))
     = [ascii ''zap-1700000000000'', ascii ''zap-1700000000000''] \<and>
   \<not> distinct (map id_c (comments (run [Zap None zap0, Zap (Some (ascii ''thanks'')) zap0] initial)))"
proof -
  have "number_text 1700000000000 = ascii ''1700000000000''"
    by (simp add: number_text_def digits10.simps ascii_def)
  then have ids: "id_c (zapComment m zap0) = ascii ''zap-1700000000000''" for m
    by (simp add: zapComment_def zap0_def ascii_def)
  have "comments (run [Zap None zap0, Zap (Some (ascii ''thanks'')) zap0] initial)
      = [zapComment None zap0, zapComment (Some (ascii ''thanks'')) zap0]"
    by (simp add: comments_run_initial MAX_COMMENTS_def del: run.simps)
  then show ?thesis
    by (simp only: list.map ids distinct.simps list.set) simp
qed

section \<open>The author index\<close>

lemma bits_0: "bits 0 = 0"
  by (simp add: bits.simps)

lemma bits_pos: "0 < n \<Longrightarrow> bits n = Suc (bits (n div 2))"
  by (simp add: bits.simps)

lemma less_two_power_bits: "n < 2 ^ bits n"
proof (induction n rule: bits.induct)
  case (1 n)
  show ?case
  proof (cases "n = 0")
    case True
    then show ?thesis by (simp add: bits_0)
  next
    case False
    with 1 have "n div 2 < 2 ^ bits (n div 2)" by simp
    then have "n < 2 * 2 ^ bits (n div 2)" by arith
    with False show ?thesis by (simp add: bits_pos)
  qed
qed

lemma two_power_bits_le: "0 < n \<Longrightarrow> 2 ^ (bits n - 1) \<le> n"
proof (induction n rule: bits.induct)
  case (1 n)
  then have n: "n \<noteq> 0" by simp
  show ?case
  proof (cases "n div 2 = 0")
    case True
    with n show ?thesis by (simp add: bits_pos bits_0)
  next
    case False
    with 1 n have "2 ^ (bits (n div 2) - 1) \<le> n div 2" by simp
    moreover from False have "bits (n div 2) = Suc (bits (n div 2) - 1)"
      by (simp add: bits_pos)
    ultimately have "2 ^ bits (n div 2) \<le> 2 * (n div 2)"
      by (metis power_Suc mult_le_mono2)
    also have "\<dots> \<le> n" by simp
    finally show ?thesis using n by (simp add: bits_pos)
  qed
qed

lemma bits_le: "n < 2 ^ m \<Longrightarrow> bits n \<le> m"
proof (rule ccontr)
  assume lt: "n < 2 ^ m" and "\<not> bits n \<le> m"
  then have m: "m \<le> bits n - 1" by simp
  have "0 < n" using \<open>\<not> bits n \<le> m\<close> by (cases "n = 0") (simp_all add: bits_0)
  then have "2 ^ (bits n - 1) \<le> n" by (rule two_power_bits_le)
  moreover have "(2::nat) ^ m \<le> 2 ^ (bits n - 1)"
    using m by (simp add: power_increasing)
  ultimately show False using lt by linarith
qed

lemma bits_shift: "0 < m \<Longrightarrow> bits (m * 2 ^ n) = bits m + n"
  by (induction n) (simp_all add: bits_pos)

lemma round53_small: "bits n \<le> 53 \<Longrightarrow> round53 n = n"
  by (simp add: round53_def)

text \<open>Rounding moves a value up by at most half a unit in the last place.\<close>

lemma round53_le: "53 < bits n \<Longrightarrow> round53 n \<le> n + 2 ^ (bits n - 54)"
proof -
  assume big: "53 < bits n"
  define s where "s = bits n - 53"
  define q where "q = n div 2 ^ s"
  define r where "r = n mod 2 ^ s"
  define h :: nat where "h = 2 ^ (s - 1)"
  have s: "0 < s" using big by (simp add: s_def)
  then have two_h: "(2::nat) ^ s = 2 * h"
    by (cases s) (simp_all add: h_def)
  have n: "n = q * 2 ^ s + r"
    by (simp only: q_def r_def div_mult_mod_eq)
  have h54: "h = 2 ^ (bits n - 54)"
    using big by (simp add: h_def s_def)
  have R: "round53 n = (if r < h \<or> (r = h \<and> even q) then q else q + 1) * 2 ^ s"
    using big by (simp add: round53_def Let_def s_def q_def r_def h_def)
  show ?thesis
  proof (cases "r < h \<or> (r = h \<and> even q)")
    case True
    with R have "round53 n = q * 2 ^ s" by simp
    with n show ?thesis by simp
  next
    case False
    then have "h \<le> r" by auto
    from False have "(if r < h \<or> (r = h \<and> even q) then q else q + 1) = q + 1"
      by (simp only: if_False)
    with R have "round53 n = (q + 1) * 2 ^ s"
      by (simp only:)
    then have "round53 n = q * 2 ^ s + 2 * h"
      by (simp add: two_h)
    with n \<open>h \<le> r\<close> show ?thesis by (simp add: h54)
  qed
qed

lemma round53_dvd: "53 < bits n \<Longrightarrow> 2 ^ (bits n - 53) dvd round53 n"
  by (simp add: round53_def Let_def)

lemma round53_le_double: "round53 n \<le> 2 * n"
proof (cases "bits n \<le> 53")
  case True
  then show ?thesis by (simp add: round53_small)
next
  case False
  then have big: "53 < bits n" by simp
  then have "0 < n" by (cases "n = 0") (simp_all add: bits_0)
  then have "2 ^ (bits n - 1) \<le> n" by (rule two_power_bits_le)
  moreover have "(2::nat) ^ (bits n - 54) \<le> 2 ^ (bits n - 1)"
    by (rule power_increasing) simp_all
  moreover note round53_le [OF big]
  ultimately show ?thesis by linarith
qed

text \<open>A value with at most 53 significant bits is a double: rounding leaves it alone.\<close>

lemma round53_exact:
  assumes "m < 2 ^ 53"
  shows "round53 (m * 2 ^ n) = m * 2 ^ n"
proof (cases "bits (m * 2 ^ n) \<le> 53")
  case True
  then show ?thesis by (rule round53_small)
next
  case False
  then have m: "0 < m" by (cases "m = 0") (simp_all add: bits_0)
  from assms have "bits m \<le> 53" by (rule bits_le)
  with False m have le: "bits (m * 2 ^ n) - 53 \<le> n"
    by (simp add: bits_shift)
  define s where "s = bits (m * 2 ^ n) - 53"
  define c where "c = m * 2 ^ (n - s)"
  from le have "n = s + (n - s)" by (simp add: s_def)
  then have eq: "m * 2 ^ n = c * 2 ^ s"
    unfolding c_def by (metis power_add mult.assoc mult.commute)
  have "c * 2 ^ s mod 2 ^ s = 0" and "c * 2 ^ s div 2 ^ s * 2 ^ s = c * 2 ^ s"
    by simp_all
  then have "m * 2 ^ n mod 2 ^ s = 0" and "m * 2 ^ n div 2 ^ s * 2 ^ s = m * 2 ^ n"
    by (simp_all only: eq)
  with False show ?thesis
    unfolding s_def by (simp add: round53_def Let_def)
qed

text \<open>
  The largest double below 1 is \<open>1 - 2^-53\<close>: a draw either lies below one half or
  leaves a gap of \<open>2^1021\<close> units to 1.
\<close>

lemma double_below_one_gap:
  assumes "is_random_double k"
  shows "bits k \<le> 1073 \<or> k + 2 ^ 1021 \<le> unit_one"
proof (cases "bits k \<le> 1073")
  case True
  then show ?thesis by simp
next
  case False
  from assms have lt: "k < 2 ^ 1074" and rk: "round53 k = k"
    by (simp_all add: is_random_double_def unit_one_def)
  from lt have "bits k \<le> 1074" by (rule bits_le)
  with False have b: "bits k = 1074" by simp
  then have "2 ^ (bits k - 53) dvd round53 k"
    by (intro round53_dvd) simp
  with b rk have "(2::nat) ^ 1021 dvd k" by simp
  then obtain j where j: "k = 2 ^ 1021 * j" ..
  have split: "(2::nat) ^ 1074 = 2 ^ 1021 * 2 ^ 53"
    by (simp only: power_add [symmetric]) simp
  from lt j split have "j < 2 ^ 53"
    by (metis nat_mult_less_cancel_disj)
  then have "j + 1 \<le> 2 ^ 53" by simp
  then have "2 ^ 1021 * (j + 1) \<le> (2::nat) ^ 1021 * 2 ^ 53"
    by (rule mult_le_mono2)
  with j split have "k + 2 ^ 1021 \<le> 2 ^ 1074"
    by (simp only: add_mult_distrib2 mult_1_right)
  then show ?thesis by (simp only: unit_one_def) simp
qed

lemma round53_times_10_below:
  assumes "is_random_double k"
  shows "round53 (k * 10) < 10 * unit_one"
proof -
  from assms have lt: "k < 2 ^ 1074"
    by (simp add: is_random_double_def unit_one_def)
  from double_below_one_gap [OF assms]
  show ?thesis
  proof
    assume "bits k \<le> 1073"
    then have "(2::nat) ^ bits k \<le> 2 ^ 1073"
      by (intro power_increasing) simp_all
    with less_two_power_bits [of k] have "k < 2 ^ 1073" by linarith
    moreover have "round53 (k * 10) \<le> 2 * (k * 10)" by (rule round53_le_double)
    moreover have "unit_one = 2 * 2 ^ 1073"
      by (simp only: unit_one_def power_Suc [symmetric]) simp
    ultimately show ?thesis by linarith
  next
    assume gap: "k + 2 ^ 1021 \<le> unit_one"
    show ?thesis
    proof (cases "bits (k * 10) \<le> 53")
      case True
      then have "round53 (k * 10) = k * 10" by (rule round53_small)
      with gap show ?thesis by simp
    next
      case False
      then have big: "53 < bits (k * 10)" by simp
      have "k * 10 < 2 ^ 1078"
      proof -
        have "(2::nat) ^ 1078 = 2 ^ 4 * 2 ^ 1074"
          by (simp only: power_add [symmetric]) simp
        then have "(2::nat) ^ 1078 = 16 * 2 ^ 1074"
          by simp
        with lt show ?thesis by linarith
      qed
      then have "bits (k * 10) \<le> 1078" by (rule bits_le)
      then have "(2::nat) ^ (bits (k * 10) - 54) \<le> 2 ^ 1024"
        by (intro power_increasing) simp_all
      moreover have "(2::nat) ^ 1024 = 8 * 2 ^ 1021"
        by simp
      moreover have "(0::nat) < 2 ^ 1021"
        by simp
      moreover note round53_le [OF big] gap
      ultimately show ?thesis by linarith
    qed
  qed
qed

lemma floor_random_times_10: "is_random_double k \<Longrightarrow> floor_random_times k 10 < 10"
proof -
  assume "is_random_double k"
  then have "round53 (k * 10) < 10 * unit_one" by (rule round53_times_10_below)
  then show ?thesis
    by (simp add: floor_random_times_def less_mult_imp_div_less)
qed

lemma is_random_double_half: "is_random_double (2 ^ 1073)"
proof -
  have "round53 (1 * 2 ^ 1073) = 1 * 2 ^ 1073"
    by (rule round53_exact) simp
  then show ?thesis
    by (simp add: is_random_double_def unit_one_def)
qed

lemma floor_random_times_half: "floor_random_times (2 ^ 1073) 10 = 5"
proof -
  have "(2::nat) ^ 1073 * 10 = 5 * 2 ^ 1074"
    by simp
  moreover have "round53 (5 * 2 ^ 1074) = 5 * 2 ^ 1074"
    by (rule round53_exact) simp
  ultimately show ?thesis
    by (simp add: floor_random_times_def unit_one_def)
qed

text \<open>
  C9. Every synthetic message is built from the two fixed pools: for a draw that
  \<open>Math.random()\<close> can return, the author index is below 10 and the template index below
  20, so the author of the appended message is one of the 10 entries of AUTHORS and its
  text one of the 20 entries of COMMENT_TEMPLATES (neither is \<open>undefined\<close>), and its
  isZap flag is false.
\<close>

theorem c9_synthetic_well_formed:
  "is_random_double (rnd_author env) \<Longrightarrow>
   length AUTHORS = 10 \<and> length COMMENT_TEMPLATES = 20 \<and>
   floor_random_times (rnd_author env) (length AUTHORS) < length AUTHORS \<and>
   k mod length COMMENT_TEMPLATES < length COMMENT_TEMPLATES \<and>
   (\<exists>a. a \<in> set AUTHORS \<and>
        author (last (comments (snd (injectComment k env s)))) = Some a) \<and>
   (\<exists>t. t \<in> set COMMENT_TEMPLATES \<and>
        text_c (last (comments (snd (injectComment k env s)))) = Some t) \<and>
   isZap (last (comments (snd (injectComment k env s)))) = False"
proof -
  assume "is_random_double (rnd_author env)"
  then have a: "floor_random_times (rnd_author env) (length AUTHORS) < length AUTHORS"
    by (simp add: length_AUTHORS floor_random_times_10)
  have t: "k mod length COMMENT_TEMPLATES < length COMMENT_TEMPLATES"
    by (simp add: length_COMMENT_TEMPLATES)
  from a have "author (newComment k env)
      = Some (AUTHORS ! floor_random_times (rnd_author env) (length AUTHORS))"
    by (simp add: newComment_def Let_def js_index_def)
  with a have "\<exists>a. a \<in> set AUTHORS \<and> author (newComment k env) = Some a"
    by (simp add: nth_mem)
  moreover from t have "text_c (newComment k env)
      = Some (COMMENT_TEMPLATES ! (k mod length COMMENT_TEMPLATES))"
    by (simp add: newComment_def Let_def js_index_def)
  with t have "\<exists>t. t \<in> set COMMENT_TEMPLATES \<and> text_c (newComment k env) = Some t"
    by (simp add: nth_mem)
  moreover have "isZap (newComment k env) = False"
    by (simp add: newComment_def Let_def)
  ultimately show ?thesis
    using a t by (simp add: last_comments_inject length_AUTHORS length_COMMENT_TEMPLATES)
qed

text \<open>
  The draw 0.5 at cursor 25: author index 5 (\<open>BTCWhale\<close>), template index 5.
\<close>

theorem c9_synthetic_well_formed_witness:
  "is_random_double (rnd_author inject0) \<and>
   floor_random_times (rnd_author inject0) (length AUTHORS) = 5 \<and>
   author (last (comments (snd (injectComment 25 inject0 initial)))) = Some (ascii ''BTCWhale'') \<and>
   text_c (last (comments (snd (injectComment 25 inject0 initial))))
     = Some (ascii ''This is the way'') \<and>
   isZap (last (comments (snd (injectComment 25 inject0 initial)))) = False"
proof -
  have r: "rnd_author inject0 = 2 ^ 1073"
    by (simp only: inject0_def inject_env.select_convs)
  have h: "is_random_double (rnd_author inject0)"
    by (simp only: r is_random_double_half)
  have i: "floor_random_times (rnd_author inject0) (length AUTHORS) = 5"
    by (simp only: r length_AUTHORS floor_random_times_half)
  have "author (newComment 25 inject0) = Some (ascii ''BTCWhale'')"
    by (simp add: newComment_def Let_def i js_index_def) (simp add: AUTHORS_def)
  moreover have "text_c (newComment 25 inject0) = Some (ascii ''This is the way'')"
    by (simp add: text_newComment COMMENT_TEMPLATES_def)
  ultimately show ?thesis
    using h i c9_synthetic_well_formed [OF h, of 25 initial]
    by (simp add: last_comments_inject)
qed

section \<open>The scheduler\<close>

lemma react_state_scheduleNext: "react_state (scheduleNext r s) = react_state s"
  by (simp add: scheduleNext_def)

lemma mounted_scheduleNext: "mounted (scheduleNext r s) = mounted s"
  by (simp add: scheduleNext_def)

lemma react_state_cleanup_live: "react_state (cleanup_live s) = react_state s"
  by (simp add: cleanup_live_def cleanup_def clearTimeout_def split: option.splits)

lemma mounted_cleanup_live: "mounted (cleanup_live s) = mounted s"
  by (simp add: cleanup_live_def cleanup_def clearTimeout_def split: option.splits)

lemma react_state_unmount: "react_state (unmount s) = react_state s"
  by (simp add: unmount_def react_state_cleanup_live)

lemma mounted_unmount: "\<not> mounted (unmount s)"
  by (simp add: unmount_def)

text \<open>Once the component is unmounted, the callback changes nothing React holds.\<close>

lemma timer_callback_unmounted:
  "\<not> mounted s \<Longrightarrow>
   react_state (timer_callback r env s) = react_state s \<and> \<not> mounted (timer_callback r env s)"
  by (simp add: timer_callback_def set_state_def react_state_scheduleNext mounted_scheduleNext)

lemma commit_unmounted: "\<not> mounted s \<Longrightarrow> commit old s = s"
  by (simp add: commit_def)

lemma step_unmounted:
  "\<not> mounted s \<Longrightarrow> react_state (step e s) = react_state s \<and> \<not> mounted (step e s)"
proof (cases e)
  case (TimerFires t env)
  assume off: "\<not> mounted s"
  show ?thesis
  proof (cases "map_of (timers s) t")
    case None
    with TimerFires off show ?thesis by simp
  next
    case (Some r)
    let ?s = "s\<lparr> timers := filter (\<lambda>p. fst p \<noteq> t) (timers s) \<rparr>"
    from off have "\<not> mounted ?s" by simp
    then have "react_state (timer_callback r env ?s) = react_state ?s
        \<and> \<not> mounted (timer_callback r env ?s)"
      by (rule timer_callback_unmounted)
    with TimerFires Some show ?thesis
      by (simp add: commit_unmounted)
  qed
next
  case (CallbackInvoked r env)
  assume "\<not> mounted s"
  then have "react_state (timer_callback r env s) = react_state s
      \<and> \<not> mounted (timer_callback r env s)"
    by (rule timer_callback_unmounted)
  with CallbackInvoked show ?thesis
    by (simp add: commit_unmounted)
next
  case (ZapAdded m env)
  assume "\<not> mounted s"
  with ZapAdded show ?thesis by (simp add: set_state_def)
qed

lemma steps_unmounted: "\<not> mounted s \<Longrightarrow> react_state (steps es s) = react_state s"
proof (induction es arbitrary: s)
  case Nil
  show ?case by simp
next
  case (Cons e es)
  from Cons.prems have "react_state (step e s) = react_state s" and "\<not> mounted (step e s)"
    using step_unmounted [of s e] by simp_all
  with Cons.IH [of "step e s"] show ?case by simp
qed

text \<open>In an ordinary session the only pending timer is the armed one.\<close>

lemma armed_only_scheduleNext:
  "timers s = [] \<Longrightarrow> live s = Some r \<Longrightarrow> armed_only (scheduleNext r s)"
  by (simp add: armed_only_def scheduleNext_def)

lemma timers_cleanup_live: "armed_only s \<Longrightarrow> timers (cleanup_live s) = []"
proof (cases "live s")
  case None
  assume "armed_only s"
  with None have "timers s = []"
    by (cases "timers s") (auto simp add: armed_only_def)
  with None show ?thesis by (simp add: cleanup_live_def)
next
  case (Some r)
  assume inv: "armed_only s"
  show ?thesis
  proof (cases "timeoutId s (cell r)")
    case None
    with inv Some have "timers s = []"
      by (cases "timers s") (auto simp add: armed_only_def)
    with Some None show ?thesis
      by (simp add: cleanup_live_def cleanup_def clearTimeout_def)
  next
    case (Some t)
    with inv \<open>live s = Some r\<close> have "\<forall>p \<in> set (timers s). fst p = t"
      by (auto simp add: armed_only_def)
    then have "filter (\<lambda>p. fst p \<noteq> t) (timers s) = []"
      by (simp add: filter_empty_conv)
    with Some \<open>live s = Some r\<close> show ?thesis
      by (simp add: cleanup_live_def cleanup_def clearTimeout_def)
  qed
qed

lemma armed_only_run_effect: "timers s = [] \<Longrightarrow> armed_only (run_effect s)"
  by (simp add: run_effect_def Let_def armed_only_scheduleNext)

lemma armed_only_mount: "armed_only mount"
  by (simp add: mount_def armed_only_run_effect)

lemma armed_only_commit: "armed_only s \<Longrightarrow> armed_only (commit old s)"
  by (simp add: commit_def armed_only_run_effect timers_cleanup_live)

lemma armed_only_set_state: "armed_only s \<Longrightarrow> armed_only (set_state f s)"
  by (simp add: armed_only_def set_state_def)

lemma armed_only_step: "armed_only s \<Longrightarrow> ordinary e \<Longrightarrow> armed_only (step e s)"
proof (cases e)
  case (TimerFires t env)
  assume inv: "armed_only s"
  show ?thesis
  proof (cases "map_of (timers s) t")
    case None
    with TimerFires inv show ?thesis by simp
  next
    case (Some r)
    then have mem: "(t, r) \<in> set (timers s)"
      by (rule map_of_SomeD)
    with inv have lv: "live s = Some r" and "timeoutId s (cell r) = Some t"
      by (auto simp add: armed_only_def)
    with inv have "\<forall>p \<in> set (timers s). fst p = t"
      by (auto simp add: armed_only_def)
    then have gone: "filter (\<lambda>p. fst p \<noteq> t) (timers s) = []"
      by (simp add: filter_empty_conv)
    let ?s = "s\<lparr> timers := filter (\<lambda>p. fst p \<noteq> t) (timers s) \<rparr>"
    have "armed_only (timer_callback r env ?s)"
      unfolding timer_callback_def
    proof (rule armed_only_scheduleNext)
      show "timers (set_state (\<lambda>h. snd (injectComment (cursor r) env h)) ?s) = []"
        using gone by (simp add: set_state_def)
      show "live (set_state (\<lambda>h. snd (injectComment (cursor r) env h)) ?s) = Some r"
        using lv by (simp add: set_state_def)
    qed
    then have "armed_only (commit (currentIndex (react_state s)) (timer_callback r env ?s))"
      by (rule armed_only_commit)
    with TimerFires Some show ?thesis by simp
  qed
next
  case (CallbackInvoked r env)
  assume "ordinary e"
  with CallbackInvoked show ?thesis by simp
next
  case (ZapAdded m env)
  assume "armed_only s"
  with ZapAdded show ?thesis by (simp add: armed_only_set_state)
qed

lemma armed_only_steps: "armed_only s \<Longrightarrow> list_all ordinary es \<Longrightarrow> armed_only (steps es s)"
  by (induction es arbitrary: s) (simp_all add: armed_only_step)

lemma timers_unmount: "armed_only s \<Longrightarrow> timers (unmount s) = []"
  by (simp add: unmount_def timers_cleanup_live)

lemma two_after_fire_and_zap:
  "length (comments (react_state (steps [TimerFires 1 inject0, ZapAdded None zap0] mount))) = 2"
  by (simp add: mount_def run_effect_def Let_def scheduleNext_def initial_def commit_def
      timer_callback_def set_state_def cleanup_live_def cleanup_def clearTimeout_def
      injectComment_def addZapComment_def slice_from_def MAX_COMMENTS_def)

text \<open>
  C5. Cancellation is the teardown of the component: React runs the cleanup of the live
  effect, which clears the armed timer, and discards the component. After it, no
  synthetic append changes the buffer. In an ordinary session no timer is left pending,
  so the runtime fires none; a timer callback captured before the cancellation and
  invoked after it changes neither the buffer nor the cursor, because its state updates
  reach an unmounted component; and whatever events follow the cancellation, the buffer
  stays as the cancellation found it.
\<close>

theorem c5_no_append_after_cancel:
  "(list_all ordinary es \<longrightarrow> timers (unmount (steps es mount)) = []) \<and>
   react_state (unmount (steps es mount)) = react_state (steps es mount) \<and>
   react_state (timer_callback r env (unmount (steps es mount))) = react_state (steps es mount) \<and>
   comments (react_state (steps later (unmount (steps es mount))))
     = comments (react_state (steps es mount))"
proof -
  have "list_all ordinary es \<longrightarrow> timers (unmount (steps es mount)) = []"
    by (simp add: timers_unmount armed_only_steps armed_only_mount)
  moreover have "react_state (timer_callback r env (unmount (steps es mount)))
      = react_state (unmount (steps es mount))"
    using timer_callback_unmounted [OF mounted_unmount] by simp
  moreover have "react_state (steps later (unmount (steps es mount)))
      = react_state (unmount (steps es mount))"
    by (rule steps_unmounted) (rule mounted_unmount)
  ultimately show ?thesis
    by (simp add: react_state_unmount)
qed

text \<open>
  A session in which the timer fires once and one zap comment is added, then the
  teardown: no timer is left, and the callback of the live run, invoked afterwards
  (and the timer it arms, fired afterwards), leaves the two comments as they are.
\<close>

theorem c5_no_append_after_cancel_witness:
  "list_all ordinary [TimerFires 1 inject0, ZapAdded None zap0] \<and>
   timers (unmount (steps [TimerFires 1 inject0, ZapAdded None zap0] mount)) = [] \<and>
   length (comments (react_state (steps [TimerFires 1 inject0, ZapAdded None zap0] mount))) = 2 \<and>
   length (comments (react_state (timer_callback \<lparr> cell = 1, cursor = 1 \<rparr> inject0
     (unmount (steps [TimerFires 1 inject0, ZapAdded None zap0] mount))))) = 2 \<and>
   length (comments (react_state
     (steps [CallbackInvoked \<lparr> cell = 1, cursor = 1 \<rparr> inject0, TimerFires 4 inject0]
       (unmount (steps [TimerFires 1 inject0, ZapAdded None zap0] mount))))) = 2"
proof -
  have ord: "list_all ordinary [TimerFires 1 inject0, ZapAdded None zap0]"
    by simp
  note c5 = c5_no_append_after_cancel [of "[TimerFires 1 inject0, ZapAdded None zap0]"
      "\<lparr> cell = 1, cursor = 1 \<rparr>" inject0
      "[CallbackInvoked \<lparr> cell = 1, cursor = 1 \<rparr> inject0, TimerFires 4 inject0]"]
  from c5 ord have "timers (unmount (steps [TimerFires 1 inject0, ZapAdded None zap0] mount)) = []"
    by (simp only:)
  with c5 ord two_after_fire_and_zap show ?thesis
    by (simp only:)
qed

end
